theory Spec2Isabelle
  imports Complex_Main "HOL-Library.AList" "HOL-Library.Char_ord" "HOL-Library.List_Lexorder"
begin

section \<open>The IP blocking engine of Scripts/ip_blocker.py\<close>

text \<open>
  The class \<open>IPBlocker\<close> keeps three dictionaries, a cache of the last state it saved and
  the last modification time it saw of the blocklist file. The model threads one record
  through every method: the fields of the object, and next to them the blocklist file on
  disk, which the methods read and replace.

  Every method runs its body under \<open>self.lock\<close>, so one call is one step here; the
  external-change check takes no lock, and what other threads do during it is not
  modelled.

  What the standard library does is kept by its data, not by its text:
  \<^item> \<open>time.time()\<close> yields a float; it is a rational number here, so the rounding of
    \<open>current_time - CONNECTION_TIMEOUT\<close> is left out. The failure score, a multiple of
    \<open>1/2\<close>, is exact in both.
  \<^item> \<open>datetime.now()\<close> is a number of microseconds, the resolution of \<open>datetime\<close>, and
    a \<open>timedelta\<close> is a difference of two such numbers.
  \<^item> A stored block time is the text \<open>datetime.isoformat()\<close> gave, or anything else a
    JSON file may hold in its place. \<open>IsoText d\<close> is the text \<open>isoformat\<close> gives for
    \<open>d\<close>, which \<open>fromisoformat\<close> reads back as \<open>d\<close>; \<open>OtherText v\<close> is a value on
    which \<open>fromisoformat\<close> raises \<open>ValueError\<close> or \<open>TypeError\<close> (the source
    handles the two alike in every place). Texts that \<open>fromisoformat\<close> accepts and
    \<open>isoformat\<close> never writes are not in the model.
  \<^item> A JSON text is the document it denotes. \<open>json.dumps(d, sort_keys=True)\<close> is the
    item list of \<open>d\<close> sorted by key, \<open>json.dump(d, f, indent=2)\<close> writes the item list
    in the order of insertion, and \<open>json.load\<close> gives the document of the file back.
\<close>

subsection \<open>Configuration (Scripts/config.py)\<close>

definition BLOCK_RESET_INTERVAL :: int where
  \<comment> \<open>\<open>timedelta(hours=1)\<close>, in microseconds\<close>
  "BLOCK_RESET_INTERVAL = 3600000000"

definition BLOCK_THRESHOLD :: int where
  "BLOCK_THRESHOLD = 10"

definition CONNECTION_TIMEOUT :: rat where
  "CONNECTION_TIMEOUT = 30"

subsection \<open>Data\<close>

datatype timestr = IsoText int | OtherText string

definition isoformat :: "int \<Rightarrow> timestr" where
  "isoformat d = IsoText d"

fun fromisoformat :: "timestr \<Rightarrow> int option" where
  "fromisoformat (IsoText d) = Some d"
| "fromisoformat (OtherText v) = None"

text \<open>
  What \<open>json.load\<close> may return. An element of an array is an address string or a
  container (a nested array or object, which is not hashable); the top level may also be
  a bare string or an atom (a number, \<open>true\<close>, \<open>false\<close>, \<open>null\<close>). Arrays that hold
  atoms, which would become keys that are not strings, are not in the model.
\<close>

datatype elem = Addr string | Container

datatype json_doc =
    Obj "(string \<times> timestr) list"
  | Arr "elem list"
  | Str string
  | Atom

text \<open>The file, as \<open>BLOCKLIST_FILE.exists()\<close> finds it: absent; present with its
  modification time and its content, \<open>None\<close> when \<open>open\<close> or \<open>json.load\<close> raises on
  it; or inaccessible, when the \<open>stat\<close> behind \<open>exists()\<close> fails with an \<open>OSError\<close>
  that \<open>pathlib\<close> does not take for absence (a directory on the way that may not be
  searched gives \<open>PermissionError\<close>), which \<open>exists()\<close> raises again.\<close>

datatype blockfile = Absent | Present rat "json_doc option" | Inaccessible

datatype error = JSONDecodeError | TypeError | PermissionError

text \<open>The three readings of the clock a method may take: \<open>time.time()\<close>,
  \<open>datetime.now()\<close>, and the modification time the file system stamps on a file written
  now.\<close>

record clock =
  time_time :: rat
  datetime_now :: int
  mtime_now :: rat

record state =
  blocked_ips :: "(string \<times> timestr) list"
  to_block :: "string \<rightharpoonup> rat"
  connection_attempts :: "string \<rightharpoonup> rat list"
  block_threshold :: int
  last_save_state :: "(string \<times> timestr) list option"
  last_file_mtime :: rat
  blocklist_file :: blockfile
  disk_writable :: bool

text \<open>A Python \<open>dict\<close> keeps its keys in the order of insertion: \<open>d[k] = v\<close> is
  \<open>AList.update\<close> (in place, or appended), \<open>del d[k]\<close> is \<open>AList.delete\<close>,
  \<open>k in d\<close> is \<open>map_of d k \<noteq> None\<close>.\<close>

definition dict_of_items :: "(string \<times> timestr) list \<Rightarrow> (string \<times> timestr) list" where
  \<comment> \<open>the \<open>dict\<close> \<open>json.load\<close> builds of the members of an object: a repeated key keeps
      its first place and its last value\<close>
  "dict_of_items items = fold (\<lambda>(k, v) d. AList.update k v d) items []"

definition json_dumps_sorted :: "(string \<times> timestr) list \<Rightarrow> (string \<times> timestr) list" where
  \<comment> \<open>\<open>json.dumps(self.blocked_ips, sort_keys=True)\<close>\<close>
  "json_dumps_sorted d = sort_key fst d"

subsection \<open>Persistence\<close>

definition save_blocked_ips :: "clock \<Rightarrow> state \<Rightarrow> state" where
  "save_blocked_ips c s =
     (let current_state = json_dumps_sorted (blocked_ips s) in
      if Some current_state = last_save_state s then s
      else if \<not> disk_writable s then s
      else s\<lparr>blocklist_file := Present (mtime_now c) (Some (Obj (blocked_ips s))),
             last_file_mtime := mtime_now c,
             last_save_state := Some current_state\<rparr>)"

fun convert_old_format ::
  "timestr \<Rightarrow> elem list \<Rightarrow> (string \<times> timestr) list
     \<Rightarrow> error \<times> (string \<times> timestr) list + (string \<times> timestr) list" where
  \<comment> \<open>\<open>for ip in data: self.blocked_ips[ip] = datetime.now().isoformat()\<close>; an
      element that is not hashable raises with the dictionary filled so far. The source
      reads the clock for each element; the loop has one reading here.\<close>
  "convert_old_format now [] d = Inr d"
| "convert_old_format now (Addr ip # es) d = convert_old_format now es (AList.update ip now d)"
| "convert_old_format now (Container # es) d = Inl (TypeError, d)"

definition load_try :: "clock \<Rightarrow> rat \<Rightarrow> json_doc option \<Rightarrow> state \<Rightarrow> error \<times> state + state" where
  \<comment> \<open>the body of the \<open>try\<close>; \<open>Inl\<close> carries the exception and the object as it is
      when the exception leaves the body\<close>
  "load_try c mt content s =
     (let s1 = s\<lparr>last_file_mtime := mt\<rparr> in
      case content of
        None \<Rightarrow> Inl (JSONDecodeError, s1)
      | Some (Obj items) \<Rightarrow> Inr (s1\<lparr>blocked_ips := dict_of_items items\<rparr>)
      | Some (Arr es) \<Rightarrow>
          (case convert_old_format (isoformat (datetime_now c)) es [] of
             Inl (e, d) \<Rightarrow> Inl (e, s1\<lparr>blocked_ips := d\<rparr>)
           | Inr d \<Rightarrow> Inr (s1\<lparr>blocked_ips := d\<rparr>))
      | Some (Str t) \<Rightarrow>
          (case convert_old_format (isoformat (datetime_now c)) (map (\<lambda>ch. Addr [ch]) t) [] of
             Inl (e, d) \<Rightarrow> Inl (e, s1\<lparr>blocked_ips := d\<rparr>)
           | Inr d \<Rightarrow> Inr (s1\<lparr>blocked_ips := d\<rparr>))
      | Some Atom \<Rightarrow> Inl (TypeError, s1\<lparr>blocked_ips := []\<rparr>))"

definition load_blocked_ips :: "clock \<Rightarrow> state \<Rightarrow> error + state" where
  \<comment> \<open>\<open>Inl\<close> is an exception that reaches the caller: \<open>if BLOCKLIST_FILE.exists():\<close>
      stands before the \<open>try\<close>\<close>
  "load_blocked_ips c s =
     (case blocklist_file s of
        Inaccessible \<Rightarrow> Inl PermissionError
      | Absent \<Rightarrow> Inr s
      | Present mt content \<Rightarrow>
          (case load_try c mt content s of
             Inl (e, s') \<Rightarrow> Inr (s'\<lparr>blocked_ips := []\<rparr>)
           | Inr s' \<Rightarrow> Inr s'))"

definition check_external_changes_try :: "clock \<Rightarrow> state \<Rightarrow> error \<times> state + state" where
  \<comment> \<open>the method \<open>_check_external_changes\<close>; its first \<open>BLOCKLIST_FILE.exists()\<close>
      stands before the \<open>try\<close>, so \<open>Inl\<close> is an exception that leaves the method, with
      the object as it is then\<close>
  "check_external_changes_try c s =
     (case blocklist_file s of
        Inaccessible \<Rightarrow> Inl (PermissionError, s)
      | Absent \<Rightarrow>
          Inr (if blocked_ips s \<noteq> [] then s\<lparr>blocked_ips := [], last_file_mtime := 0\<rparr> else s)
      | Present current_mtime content \<Rightarrow>
          (if current_mtime > last_file_mtime s
           then (case load_blocked_ips c s of Inl e \<Rightarrow> Inr s | Inr s' \<Rightarrow> Inr s')
           else Inr s))"

definition check_external_changes :: "clock \<Rightarrow> state \<Rightarrow> state" where
  \<comment> \<open>the object after the call, whether it returned or raised\<close>
  "check_external_changes c s =
     (case check_external_changes_try c s of Inl (e, s') \<Rightarrow> s' | Inr s' \<Rightarrow> s')"

subsection \<open>Expiry and pruning\<close>

definition forget :: "string \<Rightarrow> state \<Rightarrow> state" where
  \<comment> \<open>\<open>del self.blocked_ips[ip]; self.to_block.pop(ip, None);
      self.connection_attempts.pop(ip, None)\<close>\<close>
  "forget ip s =
     s\<lparr>blocked_ips := AList.delete ip (blocked_ips s),
       to_block := (to_block s)(ip := None),
       connection_attempts := (connection_attempts s)(ip := None)\<rparr>"

definition expired :: "clock \<Rightarrow> timestr \<Rightarrow> bool" where
  \<comment> \<open>the test of the cleanup loop; a time that does not parse counts as expired\<close>
  "expired c block_time_str =
     (case fromisoformat block_time_str of
        Some block_time \<Rightarrow> datetime_now c - block_time > BLOCK_RESET_INTERVAL
      | None \<Rightarrow> True)"

definition cleanup_expired_blocks :: "clock \<Rightarrow> state \<Rightarrow> state" where
  "cleanup_expired_blocks c s =
     (let to_unblock = map fst (filter (\<lambda>(ip, block_time_str). expired c block_time_str)
                                       (blocked_ips s)) in
      if to_unblock \<noteq> [] then save_blocked_ips c (fold forget to_unblock s) else s)"

definition prune :: "rat \<Rightarrow> rat list \<Rightarrow> rat list" where
  \<comment> \<open>\<open>[t for t in ... if t > cutoff_time]\<close>\<close>
  "prune cutoff_time ts = filter (\<lambda>t. t > cutoff_time) ts"

definition cleanup_old_connections :: "clock \<Rightarrow> state \<Rightarrow> state" where
  "cleanup_old_connections c s =
     (let cutoff_time = time_time c - CONNECTION_TIMEOUT in
      s\<lparr>connection_attempts := (\<lambda>ip.
          case connection_attempts s ip of
            None \<Rightarrow> None
          | Some ts \<Rightarrow> (if prune cutoff_time ts = [] then None
                        else Some (prune cutoff_time ts)))\<rparr>)"

definition periodic_cleanup_tick :: "clock \<Rightarrow> state \<Rightarrow> state" where
  \<comment> \<open>one round of the loop of \<open>_periodic_cleanup\<close>, after its sleep; an exception of
      the check ends the round in the \<open>except Exception\<close> of the loop\<close>
  "periodic_cleanup_tick c s =
     (case check_external_changes_try c s of
        Inl (e, s') \<Rightarrow> s'
      | Inr s' \<Rightarrow> cleanup_old_connections c (cleanup_expired_blocks c s'))"

subsection \<open>The operations the proxy hooks call\<close>

definition track_connection_attempt :: "clock \<Rightarrow> string \<Rightarrow> state \<Rightarrow> bool \<times> state" where
  "track_connection_attempt c ip s =
     (let current_time = time_time c in
      if map_of (blocked_ips s) ip \<noteq> None then (True, s)
      else
        let appended = (case connection_attempts s ip of None \<Rightarrow> [] | Some ts \<Rightarrow> ts)
                         @ [current_time];
            cutoff_time = current_time - CONNECTION_TIMEOUT;
            kept = prune cutoff_time appended;
            attempt_count = int (length kept)
        in if attempt_count \<ge> block_threshold s
           then (True, save_blocked_ips c
                   (s\<lparr>blocked_ips := AList.update ip (isoformat (datetime_now c)) (blocked_ips s),
                      to_block := (to_block s)(ip := None),
                      connection_attempts := (connection_attempts s)(ip := None)\<rparr>))
           else (False, s\<lparr>connection_attempts := (connection_attempts s)(ip \<mapsto> kept)\<rparr>))"

definition is_ip_blocked :: "clock \<Rightarrow> string \<Rightarrow> state \<Rightarrow> bool \<times> state" where
  "is_ip_blocked c ip s =
     (case map_of (blocked_ips s) ip of
        None \<Rightarrow> (False, s)
      | Some block_time_str \<Rightarrow>
          (case fromisoformat block_time_str of
             Some block_time \<Rightarrow>
               (if datetime_now c - block_time > BLOCK_RESET_INTERVAL
                then (False, save_blocked_ips c (forget ip s))
                else (True, s))
           | None \<Rightarrow> (False, s\<lparr>blocked_ips := AList.delete ip (blocked_ips s)\<rparr>)))"

definition block_ip :: "clock \<Rightarrow> string \<Rightarrow> state \<Rightarrow> state" where
  "block_ip c ip s =
     save_blocked_ips c
       (s\<lparr>blocked_ips := AList.update ip (isoformat (datetime_now c)) (blocked_ips s),
          to_block := (to_block s)(ip := None),
          connection_attempts := (connection_attempts s)(ip := None)\<rparr>)"

definition unblock_ip :: "clock \<Rightarrow> string \<Rightarrow> state \<Rightarrow> bool \<times> state" where
  "unblock_ip c ip s =
     (if map_of (blocked_ips s) ip \<noteq> None
      then (True, save_blocked_ips c (forget ip s))
      else (False, s))"

definition increment_failure_count :: "clock \<Rightarrow> string \<Rightarrow> state \<Rightarrow> bool \<times> state" where
  "increment_failure_count c ip s =
     (if map_of (blocked_ips s) ip \<noteq> None then (False, s)
      else
        let current_count = (case to_block s ip of None \<Rightarrow> 0 | Some n \<Rightarrow> n) + 1 / 2 in
        if current_count \<ge> of_int (block_threshold s)
        then (True, save_blocked_ips c
                (s\<lparr>blocked_ips := AList.update ip (isoformat (datetime_now c)) (blocked_ips s),
                   to_block := (to_block s)(ip := None),
                   connection_attempts := (connection_attempts s)(ip := None)\<rparr>))
        else (False, s\<lparr>to_block := (to_block s)(ip \<mapsto> current_count)\<rparr>))"

definition reset_failure_count :: "string \<Rightarrow> state \<Rightarrow> state" where
  "reset_failure_count ip s =
     (if to_block s ip \<noteq> None then s\<lparr>to_block := (to_block s)(ip := None)\<rparr> else s)"

definition init_state :: "blockfile \<Rightarrow> bool \<Rightarrow> state" where
  \<comment> \<open>the fields as \<open>__init__\<close> sets them, before it calls \<open>_load_blocked_ips\<close>\<close>
  "init_state f w =
     \<lparr>blocked_ips = [], to_block = Map.empty, connection_attempts = Map.empty,
      block_threshold = BLOCK_THRESHOLD, last_save_state = None, last_file_mtime = 0,
      blocklist_file = f, disk_writable = w\<rparr>"

subsection \<open>Runs and concrete states\<close>

fun track_all :: "string \<Rightarrow> clock list \<Rightarrow> state \<Rightarrow> state" where
  \<comment> \<open>one call of \<open>track_connection_attempt\<close> for the address at each reading of the clock,
      as \<open>client_connected\<close> makes for each connection; the lock makes each call one step\<close>
  "track_all ip [] s = s"
| "track_all ip (c # cs) s = track_all ip cs (snd (track_connection_attempt c ip s))"

fun transitions :: "string \<Rightarrow> clock list \<Rightarrow> state \<Rightarrow> nat" where
  \<comment> \<open>how many calls of such a run find the address unblocked and block it\<close>
  "transitions ip [] s = 0"
| "transitions ip (c # cs) s =
     (if map_of (blocked_ips s) ip = None \<and> fst (track_connection_attempt c ip s) then 1 else 0)
     + transitions ip cs (snd (track_connection_attempt c ip s))"

definition attempts_of :: "state \<Rightarrow> string \<Rightarrow> rat list" where
  \<comment> \<open>\<open>self.connection_attempts[ip]\<close>, of a \<open>defaultdict(list)\<close>\<close>
  "attempts_of s ip = (case connection_attempts s ip of None \<Rightarrow> [] | Some ts \<Rightarrow> ts)"

definition tick :: "int \<Rightarrow> clock" where
  \<comment> \<open>the clock \<open>n\<close> seconds after its origin\<close>
  "tick n = \<lparr>time_time = of_int n, datetime_now = n * 1000000, mtime_now = of_int n\<rparr>"


definition clock0 :: clock where
  "clock0 = \<lparr>time_time = 0, datetime_now = 0, mtime_now = 0\<rparr>"

definition state_nine_and_a_half :: state where
  "state_nine_and_a_half = (init_state Absent True)\<lparr>to_block := [''1.2.3.4'' \<mapsto> 19 / 2]\<rparr>"

definition clock30 :: clock where
  "clock30 = \<lparr>time_time = 30, datetime_now = 0, mtime_now = 0\<rparr>"

definition state_one_attempt :: state where
  "state_one_attempt = (init_state Absent True)\<lparr>connection_attempts := [''1.2.3.4'' \<mapsto> [0]]\<rparr>"

text \<open>The addresses a file content lists: what a load can put into the block record.\<close>

fun listed :: "json_doc option \<Rightarrow> string list" where
  "listed None = []"
| "listed (Some (Obj items)) = map fst items"
| "listed (Some (Arr es)) = concat (map (\<lambda>e. case e of Addr ip \<Rightarrow> [ip] | Container \<Rightarrow> []) es)"
| "listed (Some (Str t)) = map (\<lambda>ch. [ch]) t"
| "listed (Some Atom) = []"

text \<open>No address of the block record has a failure score.\<close>

definition blocked_have_no_score :: "state \<Rightarrow> bool" where
  "blocked_have_no_score s = list_all (\<lambda>(ip, block_time_str). to_block s ip = None) (blocked_ips s)"

definition state_two_blocks :: state where
  "state_two_blocks =
     (init_state Absent True)\<lparr>blocked_ips := [(''9.9.9.9'', IsoText 1), (''1.1.1.1'', IsoText 2)]\<rparr>"

definition state_saved_two :: state where
  "state_saved_two =
     state_two_blocks\<lparr>last_save_state := Some [(''1.1.1.1'', IsoText 2), (''9.9.9.9'', IsoText 1)]\<rparr>"

definition state_blocked_file_gone :: state where
  "state_blocked_file_gone =
     (init_state Absent True)\<lparr>blocked_ips := [(''1.2.3.4'', IsoText 5000000)],
                               last_file_mtime := 3\<rparr>"

definition state_blocked_file_rewritten :: state where
  "state_blocked_file_rewritten =
     (init_state (Present 9 (Some (Obj [(''5.6.7.8'', IsoText 6000000)]))) True)
       \<lparr>blocked_ips := [(''1.2.3.4'', IsoText 5000000), (''5.6.7.8'', IsoText 6000000)],
        last_file_mtime := 3\<rparr>"

definition state_scored :: state where
  "state_scored =
     (init_state (Present 9 (Some (Obj [(''1.2.3.4'', IsoText 5000000)]))) True)
       \<lparr>to_block := [''1.2.3.4'' \<mapsto> 1 / 2]\<rparr>"


definition state_scored_tracked :: state where
  \<comment> \<open>an address with a failure score and an attempt in its window, not blocked, and a
      file, edited from outside, that lists it\<close>
  "state_scored_tracked =
     (init_state (Present 9 (Some (Obj [(''1.2.3.4'', IsoText 5000000)]))) True)
       \<lparr>to_block := [''1.2.3.4'' \<mapsto> 1 / 2], connection_attempts := [''1.2.3.4'' \<mapsto> [9]]\<rparr>"

definition state_reloaded_file_gone :: state where
  \<comment> \<open>after the cleanup round that reloads that file, with the file deleted from outside\<close>
  "state_reloaded_file_gone =
     (periodic_cleanup_tick (tick 10) state_scored_tracked)\<lparr>blocklist_file := Absent\<rparr>"

section \<open>What a save leaves alone\<close>

lemma blocked_ips_save [simp]: "blocked_ips (save_blocked_ips c s) = blocked_ips s"
  by (simp add: save_blocked_ips_def Let_def)

lemma to_block_save [simp]: "to_block (save_blocked_ips c s) = to_block s"
  by (simp add: save_blocked_ips_def Let_def)

lemma connection_attempts_save [simp]:
  "connection_attempts (save_blocked_ips c s) = connection_attempts s"
  by (simp add: save_blocked_ips_def Let_def)

lemma block_threshold_save [simp]: "block_threshold (save_blocked_ips c s) = block_threshold s"
  by (simp add: save_blocked_ips_def Let_def)

section \<open>Lazy expiry in \<open>is_ip_blocked\<close>\<close>

text \<open>
  Claim C2, as the code has it. For an address blocked at time \<open>T\<close> with a block time
  that parses, \<open>is_ip_blocked\<close> answers true for every check at or before
  \<open>T + BLOCK_RESET_INTERVAL\<close> and keeps the entry, and answers false for every check
  strictly after it and removes the entry. No cleanup round is involved: the statement is
  about one call on any state. The test of the source is
  \<open>datetime.now() - block_time > BLOCK_RESET_INTERVAL\<close>, so the check at exactly
  \<open>T + BLOCK_RESET_INTERVAL\<close> still finds the address blocked.
\<close>

theorem is_ip_blocked_lazy_expiry:
  assumes "map_of (blocked_ips s) ip = Some block_time_str"
    and "fromisoformat block_time_str = Some T"
  shows "fst (is_ip_blocked c ip s) = (datetime_now c \<le> T + BLOCK_RESET_INTERVAL)
       \<and> (map_of (blocked_ips (snd (is_ip_blocked c ip s))) ip \<noteq> None)
           = (datetime_now c \<le> T + BLOCK_RESET_INTERVAL)"
  using assms by (auto simp: is_ip_blocked_def forget_def delete_conv)

theorem is_ip_blocked_lazy_expiry_witness:
  "fst (is_ip_blocked \<lparr>time_time = 0, datetime_now = 6 + BLOCK_RESET_INTERVAL, mtime_now = 0\<rparr>
         ''1.2.3.4''
         ((init_state Absent True)\<lparr>blocked_ips := [(''1.2.3.4'', IsoText 5)]\<rparr>)) = False
   \<and> fst (is_ip_blocked \<lparr>time_time = 0, datetime_now = 7, mtime_now = 0\<rparr>
         ''1.2.3.4''
         ((init_state Absent True)\<lparr>blocked_ips := [(''1.2.3.4'', IsoText 5)]\<rparr>)) = True"
  using is_ip_blocked_lazy_expiry [of "(init_state Absent True)\<lparr>blocked_ips := [(''1.2.3.4'', IsoText 5)]\<rparr>"
      "''1.2.3.4''" "IsoText 5" 5 "\<lparr>time_time = 0, datetime_now = 6 + BLOCK_RESET_INTERVAL, mtime_now = 0\<rparr>"]
    is_ip_blocked_lazy_expiry [of "(init_state Absent True)\<lparr>blocked_ips := [(''1.2.3.4'', IsoText 5)]\<rparr>"
      "''1.2.3.4''" "IsoText 5" 5 "\<lparr>time_time = 0, datetime_now = 7, mtime_now = 0\<rparr>"]
  by (simp add: init_state_def BLOCK_RESET_INTERVAL_def)

text \<open>The check at exactly \<open>T + BLOCK_RESET_INTERVAL\<close>, for \<open>T = 5\<close>: the address is
  still blocked.\<close>

theorem is_ip_blocked_boundary_counterexample:
  "datetime_now \<lparr>time_time = 0, datetime_now = 5 + BLOCK_RESET_INTERVAL, mtime_now = 0\<rparr>
     \<ge> 5 + BLOCK_RESET_INTERVAL
   \<and> fst (is_ip_blocked \<lparr>time_time = 0, datetime_now = 5 + BLOCK_RESET_INTERVAL, mtime_now = 0\<rparr>
         ''1.2.3.4''
         ((init_state Absent True)\<lparr>blocked_ips := [(''1.2.3.4'', IsoText 5)]\<rparr>)) = True"
  by (simp add: is_ip_blocked_def init_state_def)

section \<open>The failure score\<close>

lemma increment_below_threshold:
  assumes "map_of (blocked_ips s) ip = None"
    and "(case to_block s ip of None \<Rightarrow> 0 | Some n \<Rightarrow> n) = v"
    and "v + 1 / 2 < of_int (block_threshold s)"
  shows "increment_failure_count c ip s = (False, s\<lparr>to_block := (to_block s)(ip \<mapsto> v + 1 / 2)\<rparr>)"
  using assms by (simp add: increment_failure_count_def Let_def)

text \<open>
  Claim C5, as the code has it. For an address that is not blocked and has the score
  \<open>v\<close> (\<open>0\<close> when it has none), an increment that stays below the block threshold adds
  exactly \<open>1/2\<close>: three of them give \<open>v + 3/2\<close>, which is \<open>3/2\<close> from no score. The
  reset on a successful response then removes the entry, and one more increment gives
  \<open>1/2\<close>: it starts from \<open>0\<close>, not from the score before the reset. The address stays
  unblocked throughout. The bound is needed: an increment that reaches the threshold
  blocks the address and deletes the score instead of storing it.
\<close>

theorem failure_score_interplay:
  assumes nb: "map_of (blocked_ips s) ip = None"
    and v: "v = (case to_block s ip of None \<Rightarrow> 0 | Some n \<Rightarrow> n)"
    and v0: "0 \<le> v"
    and th: "v + 3 / 2 < of_int (block_threshold s)"
    and s1: "s1 = snd (increment_failure_count c1 ip s)"
    and s2: "s2 = snd (increment_failure_count c2 ip s1)"
    and s3: "s3 = snd (increment_failure_count c3 ip s2)"
    and s4: "s4 = reset_failure_count ip s3"
    and s5: "s5 = snd (increment_failure_count c4 ip s4)"
  shows "to_block s1 ip = Some (v + 1 / 2)
       \<and> to_block s3 ip = Some (v + 3 / 2)
       \<and> to_block s4 ip = None
       \<and> to_block s5 ip = Some (1 / 2)
       \<and> map_of (blocked_ips s5) ip = None"
proof -
  have 1: "s1 = s\<lparr>to_block := (to_block s)(ip \<mapsto> v + 1 / 2)\<rparr>"
    unfolding s1 using increment_below_threshold [OF nb v [symmetric], of c1] th by simp
  have 2: "s2 = s1\<lparr>to_block := (to_block s1)(ip \<mapsto> v + 1 / 2 + 1 / 2)\<rparr>"
    unfolding s2 using increment_below_threshold [of s1 ip "v + 1 / 2" c2] nb th by (simp add: 1)
  have 3: "s3 = s2\<lparr>to_block := (to_block s2)(ip \<mapsto> v + 1 / 2 + 1 / 2 + 1 / 2)\<rparr>"
    unfolding s3 using increment_below_threshold [of s2 ip "v + 1 / 2 + 1 / 2" c3] nb th
    by (simp add: 1 2)
  have 4: "s4 = s3\<lparr>to_block := (to_block s3)(ip := None)\<rparr>"
    unfolding s4 by (simp add: reset_failure_count_def 3)
  have 5: "s5 = s4\<lparr>to_block := (to_block s4)(ip \<mapsto> 0 + 1 / 2)\<rparr>"
    unfolding s5 using increment_below_threshold [of s4 ip 0 c4] nb th v0
    by (simp add: 1 2 3 4)
  show ?thesis using nb by (simp add: 1 2 3 4 5)
qed

theorem failure_score_interplay_witness:
  "to_block (snd (increment_failure_count clock0 ''1.2.3.4''
      (snd (increment_failure_count clock0 ''1.2.3.4''
        (snd (increment_failure_count clock0 ''1.2.3.4'' (init_state Absent True))))))) ''1.2.3.4''
     = Some (3 / 2)
   \<and> to_block (snd (increment_failure_count clock0 ''1.2.3.4''
      (reset_failure_count ''1.2.3.4''
      (snd (increment_failure_count clock0 ''1.2.3.4''
      (snd (increment_failure_count clock0 ''1.2.3.4''
        (snd (increment_failure_count clock0 ''1.2.3.4'' (init_state Absent True))))))))))
       ''1.2.3.4'' = Some (1 / 2)"
  using failure_score_interplay [of "init_state Absent True" "''1.2.3.4''" 0,
      OF _ _ _ _ refl refl refl refl refl, of clock0 clock0 clock0 clock0]
  by (simp add: init_state_def BLOCK_THRESHOLD_def)

text \<open>An address that is not blocked, with the score \<open>19/2\<close> and the threshold \<open>10\<close>:
  the increment does not leave the score \<open>10\<close>, it leaves no score and a block.\<close>

theorem increment_at_threshold_counterexample:
  "map_of (blocked_ips state_nine_and_a_half) ''1.2.3.4'' = None
   \<and> to_block state_nine_and_a_half ''1.2.3.4'' = Some (19 / 2)
   \<and> to_block (snd (increment_failure_count clock0 ''1.2.3.4'' state_nine_and_a_half))
        ''1.2.3.4'' = None
   \<and> map_of (blocked_ips (snd (increment_failure_count clock0 ''1.2.3.4'' state_nine_and_a_half)))
        ''1.2.3.4'' = Some (IsoText 0)"
  by (simp add: state_nine_and_a_half_def clock0_def increment_failure_count_def init_state_def
      BLOCK_THRESHOLD_def isoformat_def)

section \<open>The attempt window\<close>

lemma prune_append_now:
  "prune (now - CONNECTION_TIMEOUT) (old @ [now]) = prune (now - CONNECTION_TIMEOUT) old @ [now]"
  by (simp add: prune_def CONNECTION_TIMEOUT_def)

text \<open>
  Claim C4, as the code has it. After \<open>track_connection_attempt\<close> for an address that is
  not blocked, at time \<open>now\<close>: with \<open>kept\<close> the stored timestamps \<open>t\<close> that satisfy
  \<open>now - CONNECTION_TIMEOUT < t\<close>, in their order, followed by \<open>now\<close>, the stored
  sequence is exactly \<open>kept\<close> when it is shorter than the threshold; otherwise the
  address is blocked and its sequence is removed. The bound is strict and there is no
  upper bound: a timestamp of exactly \<open>now - CONNECTION_TIMEOUT\<close> is evicted. So an
  attempt recorded at \<open>T0\<close> is counted by a call at \<open>T0 + e\<close> for
  \<open>e < CONNECTION_TIMEOUT\<close> and evicted by a call at \<open>T0 + CONNECTION_TIMEOUT + e\<close>
  for \<open>e \<ge> 0\<close>.
\<close>

theorem track_connection_attempt_window:
  assumes "map_of (blocked_ips s) ip = None"
    and "old = (case connection_attempts s ip of None \<Rightarrow> [] | Some ts \<Rightarrow> ts)"
    and "kept = filter (\<lambda>t. time_time c - CONNECTION_TIMEOUT < t) old @ [time_time c]"
  shows "connection_attempts (snd (track_connection_attempt c ip s)) ip
           = (if int (length kept) < block_threshold s then Some kept else None)
       \<and> (map_of (blocked_ips (snd (track_connection_attempt c ip s))) ip \<noteq> None)
           = (block_threshold s \<le> int (length kept))"
  using assms prune_append_now [of "time_time c" old]
  by (auto simp: track_connection_attempt_def Let_def prune_def update_conv isoformat_def)

theorem track_connection_attempt_window_witness:
  "connection_attempts (snd (track_connection_attempt
      \<lparr>time_time = 31, datetime_now = 0, mtime_now = 0\<rparr> ''1.2.3.4''
      ((init_state Absent True)\<lparr>connection_attempts := [''1.2.3.4'' \<mapsto> [0, 2, 30]]\<rparr>)))
     ''1.2.3.4'' = Some [2, 30, 31]"
  using track_connection_attempt_window [of
      "(init_state Absent True)\<lparr>connection_attempts := [''1.2.3.4'' \<mapsto> [0, 2, 30]]\<rparr>"
      "''1.2.3.4''" "[0, 2, 30]" "[2, 30, 31]"
      "\<lparr>time_time = 31, datetime_now = 0, mtime_now = 0\<rparr>"]
  by (simp add: init_state_def CONNECTION_TIMEOUT_def BLOCK_THRESHOLD_def)

text \<open>An attempt stored at \<open>0\<close> and a call at \<open>30\<close>: \<open>0\<close> lies in the closed interval
  from \<open>30 - CONNECTION_TIMEOUT\<close> to \<open>30\<close>, and it is evicted.\<close>

theorem track_connection_attempt_boundary_counterexample:
  "map_of (blocked_ips state_one_attempt) ''1.2.3.4'' = None
   \<and> connection_attempts state_one_attempt ''1.2.3.4'' = Some [0]
   \<and> time_time clock30 - CONNECTION_TIMEOUT \<le> 0 \<and> 0 \<le> time_time clock30
   \<and> connection_attempts (snd (track_connection_attempt clock30 ''1.2.3.4'' state_one_attempt))
        ''1.2.3.4'' = Some [30]"
  by (simp add: state_one_attempt_def clock30_def track_connection_attempt_def init_state_def
      Let_def prune_def CONNECTION_TIMEOUT_def BLOCK_THRESHOLD_def)

section \<open>Reaching the threshold\<close>

lemma length_filter_mono:
  "(\<And>x. x \<in> set xs \<Longrightarrow> P x \<Longrightarrow> Q x) \<Longrightarrow> length (filter P xs) \<le> length (filter Q xs)"
  by (induction xs) auto

lemma track_blocked: "map_of (blocked_ips s) ip = Some v \<Longrightarrow> track_connection_attempt c ip s = (True, s)"
  by (simp add: track_connection_attempt_def)

lemma track_all_blocked: "map_of (blocked_ips s) ip = Some v \<Longrightarrow> track_all ip cs s = s"
  by (induction cs) (simp_all add: track_blocked)

lemma track_step:
  assumes "map_of (blocked_ips s) ip = None"
    and "kept = filter (\<lambda>t. time_time c - CONNECTION_TIMEOUT < t) (attempts_of s ip) @ [time_time c]"
    and "s' = snd (track_connection_attempt c ip s)"
  shows "block_threshold s' = block_threshold s"
    and "block_threshold s \<le> int (length kept) \<Longrightarrow>
           map_of (blocked_ips s') ip = Some (isoformat (datetime_now c))"
    and "int (length kept) < block_threshold s \<Longrightarrow>
           map_of (blocked_ips s') ip = None \<and> attempts_of s' ip = kept"
  using assms prune_append_now [of "time_time c" "attempts_of s ip"]
  by (auto simp: track_connection_attempt_def Let_def prune_def update_conv attempts_of_def)

lemma track_all_reaches_block:
  assumes "map_of (blocked_ips s) ip = None"
    and "cs \<noteq> []"
    and "\<forall>c\<in>set cs. \<forall>c'\<in>set cs. time_time c' - CONNECTION_TIMEOUT < time_time c"
    and "block_threshold s \<le>
           int (length (filter (\<lambda>t. \<forall>c\<in>set cs. time_time c - CONNECTION_TIMEOUT < t)
                               (attempts_of s ip))) + int (length cs)"
  shows "\<exists>c\<in>set cs. map_of (blocked_ips (track_all ip cs s)) ip = Some (isoformat (datetime_now c))"
  using assms
proof (induction cs arbitrary: s)
  case Nil
  then show ?case by simp
next
  case (Cons c cs)
  define kept where
    "kept = filter (\<lambda>t. time_time c - CONNECTION_TIMEOUT < t) (attempts_of s ip) @ [time_time c]"
  define s' where "s' = snd (track_connection_attempt c ip s)"
  note step = track_step [OF Cons.prems(1) kept_def s'_def]
  define good where "good = (\<lambda>(D::clock set) t. \<forall>d\<in>D. time_time d - CONNECTION_TIMEOUT < t)"
  have now_good: "good (set cs) (time_time c)"
    using Cons.prems(3) by (simp add: good_def)
  have "length (filter (good (set (c # cs))) (attempts_of s ip))
          \<le> length (filter (good (set cs))
               (filter (\<lambda>t. time_time c - CONNECTION_TIMEOUT < t) (attempts_of s ip)))"
    unfolding filter_filter by (rule length_filter_mono) (auto simp: good_def)
  then have count: "length (filter (good (set (c # cs))) (attempts_of s ip)) + 1
          \<le> length (filter (good (set cs)) kept)"
    using now_good by (simp add: kept_def)
  have le_kept: "length (filter (good (set cs)) kept) \<le> length kept"
    by simp
  have prem4: "block_threshold s \<le>
      int (length (filter (good (set (c # cs))) (attempts_of s ip))) + int (length (c # cs))"
    using Cons.prems(4) by (simp add: good_def)
  show ?case
  proof (cases "block_threshold s \<le> int (length kept)")
    case True
    then have b: "map_of (blocked_ips s') ip = Some (isoformat (datetime_now c))"
      by (rule step(2))
    have "track_all ip (c # cs) s = s'"
      using track_all_blocked [OF b] by (simp add: s'_def)
    then show ?thesis using b by simp
  next
    case False
    then have nb: "map_of (blocked_ips s') ip = None" and att: "attempts_of s' ip = kept"
      using step(3) by simp_all
    have ne: "cs \<noteq> []"
    proof
      assume "cs = []"
      then have "block_threshold s \<le>
          int (length (filter (good (set (c # cs))) (attempts_of s ip))) + 1"
        using prem4 by simp
      then have "block_threshold s \<le> int (length kept)"
        using count le_kept by linarith
      then show False using False by simp
    qed
    have "block_threshold s' \<le>
        int (length (filter (\<lambda>t. \<forall>c\<in>set cs. time_time c - CONNECTION_TIMEOUT < t)
                            (attempts_of s' ip))) + int (length cs)"
      using prem4 count by (simp add: step(1) att good_def)
    moreover have "\<forall>d\<in>set cs. \<forall>d'\<in>set cs. time_time d' - CONNECTION_TIMEOUT < time_time d"
      using Cons.prems(3) by simp
    ultimately have "\<exists>d\<in>set cs. map_of (blocked_ips (track_all ip cs s')) ip
        = Some (isoformat (datetime_now d))"
      using Cons.IH [OF nb ne] by blast
    then show ?thesis by (auto simp: s'_def)
  qed
qed




text \<open>
  In a run of such calls one after the other, which is what the lock makes of
  simultaneous calls, the address is blocked by exactly one of them, whatever the order
  of the clock readings.
\<close>

lemma transitions_blocked: "map_of (blocked_ips s) ip = Some v \<Longrightarrow> transitions ip cs s = 0"
  by (induction cs) (simp_all add: track_blocked)

lemma track_returns_blocked:
  "map_of (blocked_ips s) ip = None \<Longrightarrow>
     fst (track_connection_attempt c ip s)
       = (map_of (blocked_ips (snd (track_connection_attempt c ip s))) ip \<noteq> None)"
  by (auto simp: track_connection_attempt_def Let_def update_conv')

lemma transitions_at_most_one:
  "map_of (blocked_ips s) ip = None \<Longrightarrow>
     transitions ip cs s = (if map_of (blocked_ips (track_all ip cs s)) ip \<noteq> None then 1 else 0)"
proof (induction cs arbitrary: s)
  case Nil
  then show ?case by simp
next
  case (Cons c cs)
  let ?s' = "snd (track_connection_attempt c ip s)"
  show ?case
  proof (cases "map_of (blocked_ips ?s') ip")
    case None
    then show ?thesis
      using Cons.IH [OF None] track_returns_blocked [OF Cons.prems, of c] by simp
  next
    case (Some v)
    then show ?thesis
      using transitions_blocked [OF Some] track_all_blocked [OF Some]
        track_returns_blocked [OF Cons.prems, of c] Cons.prems by simp
  qed
qed

lemma serial_attempts_one_transition:
  assumes "map_of (blocked_ips s) ip = None"
    and "cs \<noteq> []"
    and "block_threshold s \<le> int (length cs)"
    and "\<forall>c\<in>set cs. \<forall>c'\<in>set cs. time_time c' - CONNECTION_TIMEOUT < time_time c"
  shows "transitions ip cs s = 1"
proof -
  have "block_threshold s \<le>
      int (length (filter (\<lambda>t. \<forall>c\<in>set cs. time_time c - CONNECTION_TIMEOUT < t)
                          (attempts_of s ip))) + int (length cs)"
    using assms(3) by simp
  from track_all_reaches_block [OF assms(1,2,4) this]
  show ?thesis by (auto simp: transitions_at_most_one [OF assms(1)])
qed

section \<open>Dictionaries\<close>




lemma distinct_dict_of_items_aux:
  "distinct (map fst d) \<Longrightarrow> distinct (map fst (fold (\<lambda>(k, v) d. AList.update k v d) items d))"
  by (induction items arbitrary: d) (auto simp: distinct_update)

lemma distinct_dict_of_items: "distinct (map fst (dict_of_items items))"
  using distinct_dict_of_items_aux [of "[]" items] by (simp add: dict_of_items_def)

lemma keys_fold_update:
  "fst ` set (fold (\<lambda>(k, v) d. AList.update k v d) items d) = fst ` set d \<union> fst ` set items"
proof (induction items arbitrary: d)
  case Nil
  then show ?case by simp
next
  case (Cons kv items)
  obtain k v where kv: "kv = (k, v)" by (cases kv)
  show ?case unfolding kv by (simp add: Cons.IH dom_update)
qed

lemma keys_dict_of_items: "fst ` set (dict_of_items items) = fst ` set items"
  using keys_fold_update [of items "[]"] by (simp add: dict_of_items_def)




section \<open>Loading\<close>

lemma convert_old_format_fails_iff:
  "(\<exists>e d'. convert_old_format now es d = Inl (e, d')) = (Container \<in> set es)"
  by (induction now es d rule: convert_old_format.induct) simp_all

lemma load_try_fails_iff:
  "(\<exists>e sf. load_try c mt content s = Inl (e, sf)) =
     (case content of
        None \<Rightarrow> True
      | Some (Obj items) \<Rightarrow> False
      | Some (Arr es) \<Rightarrow> Container \<in> set es
      | Some (Str t) \<Rightarrow> False
      | Some Atom \<Rightarrow> True)"
proof (cases content)
  case None
  then show ?thesis by (simp add: load_try_def)
next
  case (Some doc)
  show ?thesis
  proof (cases doc)
    case (Obj items)
    then show ?thesis by (simp add: load_try_def Some)
  next
    case (Arr es)
    show ?thesis
      using convert_old_format_fails_iff [of "isoformat (datetime_now c)" es "[]"]
      by (auto simp: load_try_def Let_def Some Arr split: sum.splits prod.splits)
  next
    case (Str t)
    show ?thesis
      using convert_old_format_fails_iff
        [of "isoformat (datetime_now c)" "map (\<lambda>ch. Addr [ch]) t" "[]"]
      by (auto simp: load_try_def Let_def Some Str split: sum.splits prod.splits)
  next
    case Atom
    then show ?thesis by (simp add: load_try_def Some)
  qed
qed

lemma load_blocked_ips_returns:
  "blocklist_file s \<noteq> Inaccessible \<Longrightarrow> \<exists>s'. load_blocked_ips c s = Inr s'"
  by (simp add: load_blocked_ips_def split: blockfile.splits sum.splits prod.splits)

text \<open>What the \<open>try\<close> gives, once the existence test has returned: a missing file
  changes nothing; a content that does not parse, an atom, and an array that holds a
  container leave the block record empty, with the modification time of the file taken.\<close>

lemma load_blocked_ips_missing: "blocklist_file s = Absent \<Longrightarrow> load_blocked_ips c s = Inr s"
  by (simp add: load_blocked_ips_def)

lemma convert_old_format_Container:
  "Container \<in> set es \<Longrightarrow> \<exists>d'. convert_old_format now es d = Inl (TypeError, d')"
  by (induction now es d rule: convert_old_format.induct) simp_all

lemma load_blocked_ips_fails_open:
  assumes "blocklist_file s = Present mt content"
    and "content = None \<or> content = Some Atom
         \<or> (\<exists>es. content = Some (Arr es) \<and> Container \<in> set es)"
  shows "load_blocked_ips c s = Inr (s\<lparr>last_file_mtime := mt, blocked_ips := []\<rparr>)"
proof -
  consider "content = None" | "content = Some Atom"
    | es where "content = Some (Arr es)" "Container \<in> set es"
    using assms(2) by blast
  then show ?thesis
  proof cases
    case 1
    then show ?thesis using assms(1) by (simp add: load_blocked_ips_def load_try_def)
  next
    case 2
    then show ?thesis using assms(1) by (simp add: load_blocked_ips_def load_try_def)
  next
    case 3
    from convert_old_format_Container [OF 3(2), of "isoformat (datetime_now c)" "[]"]
    obtain d' where "convert_old_format (isoformat (datetime_now c)) es [] = Inl (TypeError, d')"
      by blast
    then show ?thesis using assms(1) 3(1)
      by (simp add: load_blocked_ips_def load_try_def)
  qed
qed

text \<open>
  Claim C8 fails where the existence test itself raises. \<open>_load_blocked_ips\<close> wraps
  reading, parsing and conversion in \<open>try ... except Exception\<close>, and
  \<open>load_blocked_ips_fails_open\<close> shows that those failures end in an empty record. But
  \<open>if BLOCKLIST_FILE.exists():\<close> stands before the \<open>try\<close>, and \<open>Path.exists()\<close>
  raises the \<open>PermissionError\<close> of its \<open>stat\<close> again: with an inaccessible file the load
  raises to its caller, which at startup is \<open>__init__\<close>. In \<open>_save_blocked_ips\<close> the
  same test stands inside the \<open>try\<close>.
\<close>

theorem load_blocked_ips_raises_permission_error:
  "blocklist_file (init_state Inaccessible True) = Inaccessible
   \<and> load_blocked_ips clock0 (init_state Inaccessible True) = Inl PermissionError"
  by (simp add: load_blocked_ips_def init_state_def)





section \<open>Saving\<close>

lemma sorted_json_dumps_sorted: "sorted (map fst (json_dumps_sorted d))"
  by (simp add: json_dumps_sorted_def)

lemma json_dumps_sorted_eq_iff:
  assumes "distinct (map fst d)" and "distinct (map fst d')"
  shows "(json_dumps_sorted d = json_dumps_sorted d') = (set d = set d')"
proof
  assume "json_dumps_sorted d = json_dumps_sorted d'"
  then have "set (sort_key fst d) = set (sort_key fst d')"
    by (simp add: json_dumps_sorted_def)
  then show "set d = set d'" by simp
next
  assume eq: "set d = set d'"
  have inj: "inj_on fst (set d)" "inj_on fst (set d')"
    using assms by (simp_all add: distinct_map)
  have "sort_key fst d = sort_key fst d'"
  proof (rule map_sorted_distinct_set_unique [where f = fst])
    show "inj_on fst (set (sort_key fst d) \<union> set (sort_key fst d'))"
      using inj eq by simp
    show "distinct (map fst (sort_key fst d))" "distinct (map fst (sort_key fst d'))"
      using assms by (simp_all add: distinct_map)
  qed (simp_all add: eq)
  then show "json_dumps_sorted d = json_dumps_sorted d'"
    by (simp add: json_dumps_sorted_def)
qed

text \<open>
  Claim C7, as the code has it. The text that \<open>_save_blocked_ips\<close> compares,
  \<open>json.dumps(self.blocked_ips, sort_keys=True)\<close>, has its keys in sorted order, so it
  depends on the items of the record only and not on the order of insertion. With
  \<open>last_saved\<close> the record of the last write this process performed, if any, whose
  comparison text is the cache \<open>_last_save_state\<close>: the save changes nothing, neither
  the file nor the object, when the record has the same items as \<open>last_saved\<close> or when
  the write fails; otherwise it replaces the file by the record and updates the cache and
  the modification time. The file itself is written by a second serialisation,
  \<open>json.dump(self.blocked_ips, f, indent=2)\<close>, in the order of insertion.
\<close>

theorem save_blocked_ips_change_detection:
  assumes "distinct (map fst (blocked_ips s))"
    and "last_save_state s = map_option json_dumps_sorted last_saved"
    and "case last_saved of None \<Rightarrow> True | Some r \<Rightarrow> distinct (map fst r)"
  shows "sorted (map fst (json_dumps_sorted (blocked_ips s)))
       \<and> save_blocked_ips c s =
           (if (case last_saved of None \<Rightarrow> False | Some r \<Rightarrow> set r = set (blocked_ips s))
               \<or> \<not> disk_writable s
            then s
            else s\<lparr>blocklist_file := Present (mtime_now c) (Some (Obj (blocked_ips s))),
                   last_file_mtime := mtime_now c,
                   last_save_state := Some (json_dumps_sorted (blocked_ips s))\<rparr>)"
proof (cases last_saved)
  case None
  then show ?thesis using assms(2)
    by (simp add: save_blocked_ips_def Let_def sorted_json_dumps_sorted)
next
  case (Some r)
  then have "distinct (map fst r)" using assms(3) by simp
  from json_dumps_sorted_eq_iff [OF this assms(1)]
  show ?thesis using assms(2) Some
    by (auto simp: save_blocked_ips_def Let_def sorted_json_dumps_sorted)
qed

theorem save_blocked_ips_change_detection_witness:
  "save_blocked_ips clock0 state_saved_two = state_saved_two
   \<and> blocklist_file (save_blocked_ips clock0
         (state_saved_two\<lparr>blocked_ips := [(''9.9.9.9'', IsoText 1)]\<rparr>))
       = Present 0 (Some (Obj [(''9.9.9.9'', IsoText 1)]))"
  using save_blocked_ips_change_detection [of state_saved_two
      "Some [(''1.1.1.1'', IsoText 2), (''9.9.9.9'', IsoText 1)]" clock0]
    save_blocked_ips_change_detection [of "state_saved_two\<lparr>blocked_ips := [(''9.9.9.9'', IsoText 1)]\<rparr>"
      "Some [(''1.1.1.1'', IsoText 2), (''9.9.9.9'', IsoText 1)]" clock0]
  by (simp add: state_saved_two_def state_two_blocks_def init_state_def json_dumps_sorted_def
      clock0_def insert_commute)

text \<open>A record with \<open>9.9.9.9\<close> inserted before \<open>1.1.1.1\<close>: the file the save writes
  lists the keys in that order, which is not sorted; only the comparison text is.\<close>

theorem save_blocked_ips_file_order_counterexample:
  "blocklist_file (save_blocked_ips clock0 state_two_blocks)
     = Present 0 (Some (Obj [(''9.9.9.9'', IsoText 1), (''1.1.1.1'', IsoText 2)]))
   \<and> \<not> sorted [''9.9.9.9'', ''1.1.1.1'']
   \<and> json_dumps_sorted (blocked_ips state_two_blocks)
       = [(''1.1.1.1'', IsoText 2), (''9.9.9.9'', IsoText 1)]"
  by (simp add: state_two_blocks_def save_blocked_ips_def init_state_def clock0_def
      json_dumps_sorted_def Let_def)

section \<open>External changes of the file\<close>

lemma set_listed_Arr: "set (listed (Some (Arr es))) = {ip. Addr ip \<in> set es}"
  by (induction es) (auto split: elem.splits)

lemma convert_old_format_keys:
  "convert_old_format now es d = Inr d' \<Longrightarrow>
     fst ` set d' \<subseteq> fst ` set d \<union> {ip. Addr ip \<in> set es}"
proof (induction now es d rule: convert_old_format.induct)
  case (1 now d)
  then show ?case by simp
next
  case (2 now ip es d)
  then show ?case by (auto simp: dom_update)
next
  case (3 now es d)
  then show ?case by simp
qed

lemma load_blocked_ips_keys:
  assumes "blocklist_file s = Present mt content"
    and "load_blocked_ips c s = Inr s'"
  shows "fst ` set (blocked_ips s') \<subseteq> set (listed content)"
proof (cases content)
  case None
  then show ?thesis using assms by (auto simp: load_blocked_ips_def load_try_def)
next
  case (Some doc)
  show ?thesis
  proof (cases doc)
    case (Obj items)
    then show ?thesis using assms Some keys_dict_of_items [of items]
      by (simp add: load_blocked_ips_def load_try_def) force
  next
    case (Arr es)
    show ?thesis
    proof (cases "convert_old_format (isoformat (datetime_now c)) es []")
      case (Inl p)
      then show ?thesis using assms
        by (auto simp: load_blocked_ips_def load_try_def Let_def Some Arr split: prod.splits)
    next
      case (Inr d)
      have "blocked_ips s' = d" using assms Inr
        by (auto simp: load_blocked_ips_def load_try_def Let_def Some Arr)
      then show ?thesis using convert_old_format_keys [OF Inr]
        by (simp add: Some Arr set_listed_Arr del: listed.simps)
    qed
  next
    case (Str t)
    show ?thesis
    proof (cases "convert_old_format (isoformat (datetime_now c)) (map (\<lambda>ch. Addr [ch]) t) []")
      case (Inl p)
      then show ?thesis using assms
        by (auto simp: load_blocked_ips_def load_try_def Let_def Some Str split: prod.splits)
    next
      case (Inr d)
      have "blocked_ips s' = d" using assms Inr
        by (auto simp: load_blocked_ips_def load_try_def Let_def Some Str)
      then show ?thesis using convert_old_format_keys [OF Inr]
        by (auto simp: Some Str)
    qed
  next
    case Atom
    then show ?thesis using assms Some by (auto simp: load_blocked_ips_def load_try_def)
  qed
qed

lemma not_key_iff: "(map_of d k = None) = (k \<notin> fst ` set d)"
  by (simp add: map_of_eq_None_iff)

lemma fold_forget_not_blocked:
  "map_of (blocked_ips s) ip = None \<Longrightarrow> map_of (blocked_ips (fold forget xs s)) ip = None"
  by (induction xs arbitrary: s) (simp_all add: forget_def delete_conv')

lemma cleanup_expired_not_blocked:
  "map_of (blocked_ips s) ip = None \<Longrightarrow> map_of (blocked_ips (cleanup_expired_blocks c s)) ip = None"
  by (simp add: cleanup_expired_blocks_def Let_def fold_forget_not_blocked)

lemma blocked_ips_cleanup_old [simp]:
  "blocked_ips (cleanup_old_connections c s) = blocked_ips s"
  by (simp add: cleanup_old_connections_def Let_def)

lemma check_external_changes_unfold:
  "check_external_changes c s =
     (case blocklist_file s of
        Inaccessible \<Rightarrow> s
      | Absent \<Rightarrow>
          (if blocked_ips s \<noteq> [] then s\<lparr>blocked_ips := [], last_file_mtime := 0\<rparr> else s)
      | Present current_mtime content \<Rightarrow>
          (if current_mtime > last_file_mtime s
           then (case load_blocked_ips c s of Inl e \<Rightarrow> s | Inr s' \<Rightarrow> s')
           else s))"
  by (simp add: check_external_changes_def check_external_changes_try_def
      split: blockfile.splits sum.splits)

lemma check_external_changes_try_accessible:
  "blocklist_file s \<noteq> Inaccessible \<Longrightarrow>
     check_external_changes_try c s = Inr (check_external_changes c s)"
  by (simp add: check_external_changes_def check_external_changes_try_def
      split: blockfile.splits sum.splits)

lemma periodic_cleanup_tick_accessible:
  "blocklist_file s \<noteq> Inaccessible \<Longrightarrow>
     periodic_cleanup_tick c s =
       cleanup_old_connections c (cleanup_expired_blocks c (check_external_changes c s))"
  by (simp add: periodic_cleanup_tick_def check_external_changes_try_accessible)

text \<open>
  What the external-change check does. When the file has been deleted it empties the
  block record, so that \<open>is_ip_blocked\<close> answers false for every address, and it leaves
  scores and attempt windows as they are. When the file is there with a modification
  time later than the one this process saw last, and its content does not list the
  address, then after the reload of the check, and after the whole cleanup round, the
  address is not in the block record.
\<close>

lemma external_change_reconciliation:
  "(blocklist_file s = Absent \<longrightarrow>
      blocked_ips (check_external_changes c s) = []
      \<and> to_block (check_external_changes c s) = to_block s
      \<and> connection_attempts (check_external_changes c s) = connection_attempts s
      \<and> is_ip_blocked c' ip (check_external_changes c s) = (False, check_external_changes c s))
   \<and> (blocklist_file s = Present mt content \<and> last_file_mtime s < mt
        \<and> ip \<notin> set (listed content) \<longrightarrow>
      map_of (blocked_ips (check_external_changes c s)) ip = None
      \<and> map_of (blocked_ips (periodic_cleanup_tick c s)) ip = None)"
proof (intro conjI impI)
  assume a: "blocklist_file s = Absent"
  then show e: "blocked_ips (check_external_changes c s) = []"
    by (simp add: check_external_changes_unfold)
  show "is_ip_blocked c' ip (check_external_changes c s) = (False, check_external_changes c s)"
    by (simp add: is_ip_blocked_def e)
  show "to_block (check_external_changes c s) = to_block s"
    using a by (simp add: check_external_changes_unfold)
  show "connection_attempts (check_external_changes c s) = connection_attempts s"
    using a by (simp add: check_external_changes_unfold)
next
  assume a: "blocklist_file s = Present mt content \<and> last_file_mtime s < mt
      \<and> ip \<notin> set (listed content)"
  then have acc: "blocklist_file s \<noteq> Inaccessible" by simp
  obtain s' where s': "load_blocked_ips c s = Inr s'"
    using load_blocked_ips_returns [OF acc, of c] by blast
  have "check_external_changes c s = s'"
    using a s' by (simp add: check_external_changes_unfold)
  moreover have "ip \<notin> fst ` set (blocked_ips s')"
    using load_blocked_ips_keys [OF _ s'] a by blast
  ultimately show 1: "map_of (blocked_ips (check_external_changes c s)) ip = None"
    by (simp add: not_key_iff)
  show "map_of (blocked_ips (periodic_cleanup_tick c s)) ip = None"
    by (simp add: periodic_cleanup_tick_accessible [OF acc] cleanup_expired_not_blocked [OF 1])
qed

lemma external_change_reconciliation_example:
  "blocklist_file state_blocked_file_gone = Absent
   \<and> map_of (blocked_ips state_blocked_file_gone) ''1.2.3.4'' \<noteq> None
   \<and> blocked_ips (check_external_changes (tick 10) state_blocked_file_gone) = []
   \<and> last_file_mtime state_blocked_file_rewritten < 9
   \<and> map_of (blocked_ips state_blocked_file_rewritten) ''1.2.3.4'' \<noteq> None
   \<and> map_of (blocked_ips (periodic_cleanup_tick (tick 10) state_blocked_file_rewritten))
         ''1.2.3.4'' = None"
  using external_change_reconciliation [of state_blocked_file_gone "tick 10" "tick 10"
      "''1.2.3.4''" 0 None]
    external_change_reconciliation [of state_blocked_file_rewritten "tick 10" "tick 10"
      "''1.2.3.4''" 9 "Some (Obj [(''5.6.7.8'', IsoText 6000000)])"]
  by (simp add: state_blocked_file_gone_def state_blocked_file_rewritten_def init_state_def)

text \<open>
  Claim C6 fails in its first half. The address \<open>1.2.3.4\<close> has a failure score and an
  attempt in its window; the file, edited from outside, lists it, and a cleanup round
  reloads the file, so the address is blocked. Then the file is deleted. The next
  external-change check empties the block record, and the address keeps its score and
  its attempt window: the branch for the deleted file sets \<open>blocked_ips\<close> and
  \<open>_last_file_mtime\<close> and nothing else, where the paths that unblock an address
  (\<open>_cleanup_expired_blocks\<close>, the expiry in \<open>is_ip_blocked\<close>, \<open>unblock_ip\<close>) also
  pop it from \<open>to_block\<close> and \<open>connection_attempts\<close>. The second half of the claim
  holds, see \<open>external_change_reconciliation\<close>.
\<close>

theorem deleted_file_keeps_score_and_window:
  "map_of (blocked_ips state_reloaded_file_gone) ''1.2.3.4'' = Some (IsoText 5000000)
   \<and> blocklist_file state_reloaded_file_gone = Absent
   \<and> blocked_ips (check_external_changes (tick 11) state_reloaded_file_gone) = []
   \<and> to_block (check_external_changes (tick 11) state_reloaded_file_gone) ''1.2.3.4''
        = Some (1 / 2)
   \<and> connection_attempts (check_external_changes (tick 11) state_reloaded_file_gone) ''1.2.3.4''
        = Some [9]"
  by (simp add: state_reloaded_file_gone_def state_scored_tracked_def init_state_def
      periodic_cleanup_tick_def check_external_changes_def check_external_changes_try_def
      load_blocked_ips_def load_try_def dict_of_items_def tick_def
      cleanup_expired_blocks_def cleanup_old_connections_def prune_def
      expired_def BLOCK_RESET_INTERVAL_def CONNECTION_TIMEOUT_def Let_def)

section \<open>Blocked addresses and failure scores\<close>

text \<open>Every operation that changes the block record inside the process keeps blocked
  addresses free of a failure score.\<close>

lemma blocked_have_no_score_iff:
  "blocked_have_no_score s = (\<forall>ip. map_of (blocked_ips s) ip \<noteq> None \<longrightarrow> to_block s ip = None)"
  by (auto simp: blocked_have_no_score_def list_all_iff map_of_eq_None_iff)

lemma no_score_save: "blocked_have_no_score (save_blocked_ips c s) = blocked_have_no_score s"
  by (simp add: blocked_have_no_score_def)

lemma no_score_forget: "blocked_have_no_score s \<Longrightarrow> blocked_have_no_score (forget ip s)"
  by (auto simp: blocked_have_no_score_iff forget_def delete_conv')

lemma no_score_fold_forget:
  "blocked_have_no_score s \<Longrightarrow> blocked_have_no_score (fold forget xs s)"
  by (induction xs arbitrary: s) (simp_all add: no_score_forget)

lemma no_score_track:
  "blocked_have_no_score s \<Longrightarrow> blocked_have_no_score (snd (track_connection_attempt c ip s))"
  by (auto simp: blocked_have_no_score_iff track_connection_attempt_def Let_def update_conv')

lemma no_score_is_ip_blocked:
  "blocked_have_no_score s \<Longrightarrow> blocked_have_no_score (snd (is_ip_blocked c ip s))"
  by (auto simp: blocked_have_no_score_iff is_ip_blocked_def forget_def delete_conv'
      split: option.splits)

lemma no_score_block_ip: "blocked_have_no_score s \<Longrightarrow> blocked_have_no_score (block_ip c ip s)"
  by (auto simp: blocked_have_no_score_iff block_ip_def update_conv')

lemma no_score_unblock_ip:
  "blocked_have_no_score s \<Longrightarrow> blocked_have_no_score (snd (unblock_ip c ip s))"
  by (auto simp: blocked_have_no_score_iff unblock_ip_def forget_def delete_conv')

lemma no_score_increment:
  "blocked_have_no_score s \<Longrightarrow> blocked_have_no_score (snd (increment_failure_count c ip s))"
  by (auto simp: blocked_have_no_score_iff increment_failure_count_def Let_def update_conv')

lemma no_score_reset:
  "blocked_have_no_score s \<Longrightarrow> blocked_have_no_score (reset_failure_count ip s)"
  by (auto simp: blocked_have_no_score_iff reset_failure_count_def)

lemma no_score_cleanup_expired:
  "blocked_have_no_score s \<Longrightarrow> blocked_have_no_score (cleanup_expired_blocks c s)"
  by (simp add: cleanup_expired_blocks_def Let_def no_score_save no_score_fold_forget)

lemma no_score_cleanup_old:
  "blocked_have_no_score s \<Longrightarrow> blocked_have_no_score (cleanup_old_connections c s)"
  by (simp add: blocked_have_no_score_def cleanup_old_connections_def Let_def)

lemma no_score_file_deleted:
  "blocklist_file s = Absent \<Longrightarrow> blocked_have_no_score (check_external_changes c s)
     = (blocked_ips s = [] \<longrightarrow> blocked_have_no_score s)"
  by (auto simp: check_external_changes_unfold blocked_have_no_score_def)

text \<open>
  Claim C10 fails on the reload path. The address \<open>1.2.3.4\<close> has the score \<open>1/2\<close> and
  is not blocked; the file, changed from outside, lists it. The external-change check
  loads the file: the address is blocked and still has its score, also after the whole
  cleanup round. \<open>_load_blocked_ips\<close> replaces \<open>blocked_ips\<close> and does not touch
  \<open>to_block\<close>.
\<close>

theorem reload_keeps_score_of_blocked:
  "blocked_have_no_score state_scored
   \<and> \<not> blocked_have_no_score (check_external_changes (tick 10) state_scored)
   \<and> map_of (blocked_ips (periodic_cleanup_tick (tick 10) state_scored)) ''1.2.3.4''
       = Some (IsoText 5000000)
   \<and> to_block (periodic_cleanup_tick (tick 10) state_scored) ''1.2.3.4'' = Some (1 / 2)"
  by (simp add: state_scored_def init_state_def blocked_have_no_score_def
      check_external_changes_def check_external_changes_try_def load_blocked_ips_def
      load_try_def dict_of_items_def tick_def periodic_cleanup_tick_def
      cleanup_expired_blocks_def cleanup_old_connections_def
      expired_def BLOCK_RESET_INTERVAL_def Let_def)

end
